theory Spec2Isabelle
  imports Main
begin

section \<open>Events\<close>

text \<open>
  The enum \<open>EVENT_TYPE\<close> of \<open>app.ts\<close>: each member is its string value, since the
  registry of the service is keyed by plain strings.
\<close>

abbreviation SALE :: string where
  "SALE \<equiv> ''sale''"

abbreviation REFIL :: string where
  "REFIL \<equiv> ''refil''"

abbreviation LOW_STOCK_WARNING :: string where
  "LOW_STOCK_WARNING \<equiv> ''low_stock_warning''"

abbreviation STOCK_LEVEL_OK :: string where
  "STOCK_LEVEL_OK \<equiv> ''stock_level_ok''"

definition LOW_STOCK_WARNING_THRESHOLD :: int where
  "LOW_STOCK_WARNING_THRESHOLD = 3"

definition IS_DEBUG_LOG :: bool where
  "IS_DEBUG_LOG = True"

text \<open>
  The four classes that implement \<open>IEvent\<close>. The arguments are those of the
  constructors, in their order: the number, then the machine id. The numbers are the
  whole numbers of the section on numbers below.
\<close>

datatype event =
    MachineSaleEvent int string
  | MachineRefillEvent int string
  | LowStockWarningEvent int string
  | StockLevelOkEvent int string

fun machineId :: "event \<Rightarrow> string" where
  "machineId (MachineSaleEvent _ m) = m"
| "machineId (MachineRefillEvent _ m) = m"
| "machineId (LowStockWarningEvent _ m) = m"
| "machineId (StockLevelOkEvent _ m) = m"

fun event_type :: "event \<Rightarrow> string" where
  "event_type (MachineSaleEvent _ _) = SALE"
| "event_type (MachineRefillEvent _ _) = REFIL"
| "event_type (LowStockWarningEvent _ _) = LOW_STOCK_WARNING"
| "event_type (StockLevelOkEvent _ _) = STOCK_LEVEL_OK"

text \<open>
  \<open>getSoldQuantity\<close> exists on \<open>MachineSaleEvent\<close> only and \<open>refillAmount\<close> on
  \<open>MachineRefillEvent\<close> only. The parameter types of \<open>handle\<close> are erased when the
  program runs, so a subscriber registered under another tag calls a method that the
  object does not have: \<open>None\<close> here, a \<open>TypeError\<close> in the subscriber.
\<close>

fun getSoldQuantity :: "event \<Rightarrow> int option" where
  "getSoldQuantity (MachineSaleEvent sold _) = Some sold"
| "getSoldQuantity _ = None"

fun refillAmount :: "event \<Rightarrow> int option" where
  "refillAmount (MachineRefillEvent refill _) = Some refill"
| "refillAmount _ = None"

section \<open>Numbers\<close>

text \<open>
  A \<open>number\<close> of the program is a double. The stock of a machine starts at 10 and the
  program only adds and subtracts the quantities of events, which are whole numbers, so
  a number is modelled by the integer that it is, and the two infinities by \<open>2^1024\<close>
  and \<open>- 2^1024\<close>, the first power of two beyond the finite doubles: the comparisons
  of the program are then those of the integers.

  \<open>double_ulp a\<close> is the distance between the doubles around \<open>a \<ge> 0\<close> that are whole
  numbers: 1 below \<open>2^53\<close>, and twice as much with every further binary digit.
  \<open>round_double\<close> is the rounding of an exact result to the nearest double, to the
  one with the even significand when two are equally near, and to infinity from
  \<open>2^1024 - 2^970\<close> on. \<open>js_add\<close> and \<open>js_sub\<close> are \<open>+\<close> and \<open>-\<close> of the program:
  an infinity and a finite number give that infinity, two finite numbers give the
  rounded exact result. (Two opposite infinities would give \<open>NaN\<close>, which has no model
  here and cannot arise: the quantity of an event is finite.)
\<close>

definition Infinity :: int where
  "Infinity = 2 ^ 1024"

function double_ulp :: "int \<Rightarrow> int" where
  "double_ulp a = (if a < 2 ^ 53 then 1 else 2 * double_ulp (a div 2))"
  by pat_completeness auto
termination
  by (relation "measure nat") auto

declare double_ulp.simps [simp del]

definition round_double :: "int \<Rightarrow> int" where
  "round_double x =
     (let a = \<bar>x\<bar>;
          u = double_ulp a;
          q = a div u;
          r = a mod u;
          m = (if 2 * r < u \<or> (2 * r = u \<and> even q) then q * u else (q + 1) * u)
      in sgn x * min Infinity m)"

definition js_add :: "int \<Rightarrow> int \<Rightarrow> int" where
  "js_add a b =
     (if \<bar>a\<bar> \<ge> Infinity then a
      else if \<bar>b\<bar> \<ge> Infinity then b
      else round_double (a + b))"

definition js_sub :: "int \<Rightarrow> int \<Rightarrow> int" where
  "js_sub a b =
     (if \<bar>a\<bar> \<ge> Infinity then a
      else if \<bar>b\<bar> \<ge> Infinity then - b
      else round_double (a - b))"

section \<open>Machines\<close>

record Machine =
  stockLevel :: int
  id_machine :: string

definition new_Machine :: "string \<Rightarrow> Machine" where
  "new_Machine i = \<lparr>stockLevel = 10, id_machine = i\<rparr>"

section \<open>Subscribers, console and program state\<close>

text \<open>
  The four classes that implement \<open>ISubscriber\<close>. The service compares subscribers
  with \<open>!=\<close>, that is by object identity: the number is the identity of the object, so
  two subscribers of one class are different values. Every subscriber is constructed
  with the same array \<open>machines\<close>, which is therefore a field of the state below.
\<close>

datatype subscriber =
    MachineSaleSubscriber nat
  | MachineRefillSubscriber nat
  | StockWarningSubscriber nat
  | StockLevelOkSubscriber nat

datatype console_line =
    ConsoleLog string "event option"
  | ConsoleError string

datatype error = TypeError

text \<open>
  The state of the program: the registry of the service, the array of machines, the
  array \<open>events\<close> that the main loop empties and passes to \<open>publish\<close> as
  \<open>eventHolder\<close>, and what has been written to the console. The registry is an
  object used as a dictionary from type tags to arrays of subscribers; the map holds
  its own properties, and the properties that every object inherits are listed with
  the service below. An exception leaves the state as it was when it was thrown: a
  failing call returns \<open>Inl\<close> of the error and that state.
\<close>

record state =
  eventSubscribe :: "string \<rightharpoonup> subscriber list"
  machines :: "Machine list"
  events :: "event list"
  console :: "console_line list"

type_synonym outcome = "(error \<times> state) + state"

text \<open>
  The state in which a call ended, whether it returned or threw, and one call after
  another: the second is not made when the first throws.
\<close>

fun state_of :: "outcome \<Rightarrow> state" where
  "state_of (Inl (thrown, s)) = s"
| "state_of (Inr s) = s"

definition and_then :: "outcome \<Rightarrow> (state \<Rightarrow> outcome) \<Rightarrow> outcome" where
  "and_then r f = (case r of Inl thrown \<Rightarrow> Inl thrown | Inr s \<Rightarrow> f s)"

definition console_log :: "string \<Rightarrow> event option \<Rightarrow> state \<Rightarrow> state" where
  "console_log msg ev s = s\<lparr>console := console s @ [ConsoleLog msg ev]\<rparr>"

definition console_error :: "string \<Rightarrow> state \<Rightarrow> state" where
  "console_error msg s = s\<lparr>console := console s @ [ConsoleError msg]\<rparr>"

definition debug_log :: "string \<Rightarrow> event \<Rightarrow> state \<Rightarrow> state" where
  "debug_log msg ev s = (if IS_DEBUG_LOG then console_log msg (Some ev) s else s)"

section \<open>The subscribers\<close>

definition getMachineById :: "Machine list \<Rightarrow> string \<Rightarrow> Machine option" where
  "getMachineById ms mId = find (\<lambda>machine. id_machine machine = mId) ms"

text \<open>
  \<open>targetMachine.stockLevel = v\<close> on the object that \<open>getMachineById\<close> returned: the
  first machine of the array with that id.
\<close>

fun setStockLevel :: "string \<Rightarrow> int \<Rightarrow> Machine list \<Rightarrow> Machine list" where
  "setStockLevel mId v [] = []"
| "setStockLevel mId v (machine # ms) =
     (if id_machine machine = mId then machine\<lparr>stockLevel := v\<rparr> # ms
      else machine # setStockLevel mId v ms)"

text \<open>
  \<open>eventHolder?.push(ev)\<close>. \<open>publish\<close> of the service declares \<open>eventHolder\<close> as an
  array and the loop passes its own array \<open>events\<close>, so the array is always there.
\<close>

definition push :: "event \<Rightarrow> state \<Rightarrow> state" where
  "push ev s = s\<lparr>events := events s @ [ev]\<rparr>"

text \<open>
  \<open>MachineSaleSubscriber.handle\<close>: the machine is looked up, the event is logged, an
  unknown machine is reported and nothing else happens; otherwise the stock is read,
  reduced by \<open>event.getSoldQuantity()\<close> (a \<open>TypeError\<close>, before anything is written, when
  the event has no such method) with the subtraction of doubles, and compared with the
  threshold on both sides. \<open>MachineRefillSubscriber.handle\<close> is the same with
  \<open>refillAmount\<close>, \<open>+=\<close> and the comparisons exchanged.
\<close>

definition handle_MachineSaleSubscriber :: "event \<Rightarrow> state \<Rightarrow> outcome" where
  "handle_MachineSaleSubscriber event s =
     (let targetMachine = getMachineById (machines s) (machineId event);
          s1 = debug_log ''[MachineSaleSubscriber] Event receive'' event s
      in case targetMachine of
           None \<Rightarrow> Inr (console_error ''Unknown machine event occurs'' s1)
         | Some tm \<Rightarrow>
             (let stockLevelBeforeEvent = stockLevel tm
              in case getSoldQuantity event of
                   None \<Rightarrow> Inl (TypeError, s1)
                 | Some sold \<Rightarrow>
                     (let after = js_sub stockLevelBeforeEvent sold;
                          s2 = s1\<lparr>machines := setStockLevel (id_machine tm) after (machines s1)\<rparr>
                      in if stockLevelBeforeEvent \<ge> LOW_STOCK_WARNING_THRESHOLD
                            \<and> after < LOW_STOCK_WARNING_THRESHOLD
                         then Inr (push (LowStockWarningEvent after (id_machine tm)) s2)
                         else Inr s2)))"

definition handle_MachineRefillSubscriber :: "event \<Rightarrow> state \<Rightarrow> outcome" where
  "handle_MachineRefillSubscriber event s =
     (let targetMachine = getMachineById (machines s) (machineId event);
          s1 = debug_log ''[MachineRefillSubscriber] Event receive'' event s
      in case targetMachine of
           None \<Rightarrow> Inr (console_error ''Unknown machine event occurs'' s1)
         | Some tm \<Rightarrow>
             (let stockLevelBeforeEvent = stockLevel tm
              in case refillAmount event of
                   None \<Rightarrow> Inl (TypeError, s1)
                 | Some refill \<Rightarrow>
                     (let after = js_add stockLevelBeforeEvent refill;
                          s2 = s1\<lparr>machines := setStockLevel (id_machine tm) after (machines s1)\<rparr>
                      in if stockLevelBeforeEvent < LOW_STOCK_WARNING_THRESHOLD
                            \<and> after \<ge> LOW_STOCK_WARNING_THRESHOLD
                         then Inr (push (StockLevelOkEvent after (id_machine tm)) s2)
                         else Inr s2)))"

definition handle_StockWarningSubscriber :: "event \<Rightarrow> state \<Rightarrow> outcome" where
  "handle_StockWarningSubscriber event s =
     Inr (debug_log ''[StockWarningSubscriber] Event receive'' event s)"

definition handle_StockLevelOkSubscriber :: "event \<Rightarrow> state \<Rightarrow> outcome" where
  "handle_StockLevelOkSubscriber event s =
     Inr (debug_log ''[StockLevelOkSubscriber] Event receive'' event s)"

fun handle :: "subscriber \<Rightarrow> event \<Rightarrow> state \<Rightarrow> outcome" where
  "handle (MachineSaleSubscriber _) event s = handle_MachineSaleSubscriber event s"
| "handle (MachineRefillSubscriber _) event s = handle_MachineRefillSubscriber event s"
| "handle (StockWarningSubscriber _) event s = handle_StockWarningSubscriber event s"
| "handle (StockLevelOkSubscriber _) event s = handle_StockLevelOkSubscriber event s"

section \<open>The publish/subscribe service\<close>

text \<open>\<open>subscribers.forEach(subscriber => subscriber.handle(event, eventHolder))\<close>\<close>

fun forEach_handle :: "subscriber list \<Rightarrow> event \<Rightarrow> state \<Rightarrow> outcome" where
  "forEach_handle [] event s = Inr s"
| "forEach_handle (subscriber # subscribers) event s =
     (case handle subscriber event s of
        Inl thrown \<Rightarrow> Inl thrown
      | Inr s' \<Rightarrow> forEach_handle subscribers event s')"

text \<open>
  The registry starts as \<open>{}\<close>, so \<open>this.eventSubscribe[type]\<close> finds, for a key that is
  not a property of its own, what the object inherits from \<open>Object.prototype\<close>: a
  function, or the prototype itself for \<open>__proto__\<close>. Each of these is truthy, so the
  tests \<open>if (!subscribers)\<close> and \<open>if (this.eventSubscribe[type])\<close> take it for an
  array, and none has a method \<open>forEach\<close>, \<open>push\<close> or \<open>filter\<close>: the call is a
  \<open>TypeError\<close>, thrown before the registry or the console is written. For every other
  key without an entry the lookup is \<open>undefined\<close>.
\<close>

definition Object_prototype :: "string list" where
  "Object_prototype =
     [''constructor'', ''__defineGetter__'', ''__defineSetter__'', ''hasOwnProperty'',
      ''__lookupGetter__'', ''__lookupSetter__'', ''isPrototypeOf'',
      ''propertyIsEnumerable'', ''toString'', ''valueOf'', ''__proto__'',
      ''toLocaleString'']"

definition publish :: "event \<Rightarrow> state \<Rightarrow> outcome" where
  "publish event s =
     (case eventSubscribe s (event_type event) of
        Some subscribers \<Rightarrow> forEach_handle subscribers event s
      | None \<Rightarrow>
          if event_type event \<in> set Object_prototype then Inl (TypeError, s)
          else Inr (console_log ''No subscriber'' None s))"

definition subscribe :: "string \<Rightarrow> subscriber \<Rightarrow> state \<Rightarrow> outcome" where
  "subscribe type handler s =
     (case eventSubscribe s type of
        Some subscribers \<Rightarrow>
          Inr (s\<lparr>eventSubscribe := (eventSubscribe s)(type \<mapsto> subscribers @ [handler])\<rparr>)
      | None \<Rightarrow>
          if type \<in> set Object_prototype then Inl (TypeError, s)
          else Inr (s\<lparr>eventSubscribe := (eventSubscribe s)(type \<mapsto> [handler])\<rparr>))"

definition unsubscribe :: "string \<Rightarrow> subscriber \<Rightarrow> state \<Rightarrow> outcome" where
  "unsubscribe type handler s =
     (case eventSubscribe s type of
        Some subscribers \<Rightarrow>
          Inr (s\<lparr>eventSubscribe := (eventSubscribe s)(type \<mapsto>
               filter (\<lambda>subscribedHandler. subscribedHandler \<noteq> handler) subscribers)\<rparr>)
      | None \<Rightarrow>
          if type \<in> set Object_prototype then Inl (TypeError, s)
          else Inr (console_log ''Subscribe not found.'' None s))"

section \<open>The main loop\<close>

text \<open>
  The events that the subscribers create. No subscriber appends anything while it
  handles one of them, which is why the loop below ends.
\<close>

fun derived :: "event \<Rightarrow> bool" where
  "derived (LowStockWarningEvent _ _) = True"
| "derived (StockLevelOkEvent _ _) = True"
| "derived _ = False"

lemma handle_sale_events:
  assumes "handle_MachineSaleSubscriber e s = Inr s'"
  shows "\<exists>d. events s' = events s @ d \<and> list_all derived d \<and> length d \<le> 1
           \<and> (derived e \<longrightarrow> d = [])"
  using assms
  by (cases e)
     (auto simp: handle_MachineSaleSubscriber_def debug_log_def console_log_def
        console_error_def push_def Let_def split: option.splits if_splits)

lemma handle_refill_events:
  assumes "handle_MachineRefillSubscriber e s = Inr s'"
  shows "\<exists>d. events s' = events s @ d \<and> list_all derived d \<and> length d \<le> 1
           \<and> (derived e \<longrightarrow> d = [])"
  using assms
  by (cases e)
     (auto simp: handle_MachineRefillSubscriber_def debug_log_def console_log_def
        console_error_def push_def Let_def split: option.splits if_splits)

lemma handle_events:
  assumes "handle sub e s = Inr s'"
  shows "\<exists>d. events s' = events s @ d \<and> list_all derived d \<and> (derived e \<longrightarrow> d = [])"
proof (cases sub)
  case (MachineSaleSubscriber a)
  with assms handle_sale_events [of e s s'] show ?thesis by auto
next
  case (MachineRefillSubscriber a)
  with assms handle_refill_events [of e s s'] show ?thesis by auto
next
  case (StockWarningSubscriber a)
  with assms show ?thesis
    by (auto simp: handle_StockWarningSubscriber_def debug_log_def console_log_def)
next
  case (StockLevelOkSubscriber a)
  with assms show ?thesis
    by (auto simp: handle_StockLevelOkSubscriber_def debug_log_def console_log_def)
qed

lemma forEach_handle_events:
  "forEach_handle subs e s = Inr s' \<Longrightarrow>
     \<exists>d. events s' = events s @ d \<and> list_all derived d \<and> (derived e \<longrightarrow> d = [])"
proof (induction subs arbitrary: s)
  case Nil
  then show ?case by simp
next
  case (Cons sub subs)
  from Cons.prems obtain s1 where h: "handle sub e s = Inr s1"
    and r: "forEach_handle subs e s1 = Inr s'"
    by (auto split: sum.splits)
  from handle_events [OF h] obtain d1 where
    d1: "events s1 = events s @ d1" "list_all derived d1" "derived e \<longrightarrow> d1 = []"
    by blast
  from Cons.IH [OF r] obtain d2 where
    d2: "events s' = events s1 @ d2" "list_all derived d2" "derived e \<longrightarrow> d2 = []"
    by blast
  from d1 d2 have "events s' = events s @ (d1 @ d2) \<and> list_all derived (d1 @ d2)
      \<and> (derived e \<longrightarrow> d1 @ d2 = [])"
    by simp
  then show ?case by blast
qed

lemma publish_events:
  assumes "publish e s = Inr s'"
  shows "\<exists>d. events s' = events s @ d \<and> list_all derived d \<and> (derived e \<longrightarrow> d = [])"
proof (cases "eventSubscribe s (event_type e)")
  case None
  with assms show ?thesis
    by (auto simp: publish_def console_log_def split: if_splits)
next
  case (Some subs)
  with assms have "forEach_handle subs e s = Inr s'" by (simp add: publish_def)
  then show ?thesis by (rule forEach_handle_events)
qed

text \<open>
  The loop of the main program:
  \<^verbatim>\<open>do { const event = events.shift(); if (!event) break;
       pubSubService.publish(event, events); } while (events.length > 0)\<close>
  An exception of \<open>publish\<close> leaves the loop.
\<close>

function drain :: "state \<Rightarrow> outcome" where
  "drain s =
     (case events s of
        [] \<Rightarrow> Inr s
      | event # rest \<Rightarrow>
          (case publish event (s\<lparr>events := rest\<rparr>) of
             Inl thrown \<Rightarrow> Inl thrown
           | Inr s' \<Rightarrow> if length (events s') > 0 then drain s' else Inr s'))"
  by pat_completeness auto
termination
proof (relation "measures [\<lambda>s. length (filter (\<lambda>e. \<not> derived e) (events s)),
                            \<lambda>s. length (events s)]")
  show "wf (measures [\<lambda>s. length (filter (\<lambda>e. \<not> derived e) (events s)),
                      \<lambda>s. length (events s)])"
    by simp
next
  fix s :: state and event rest x2
  assume ev: "events s = event # rest"
    and pub: "publish event (s\<lparr>events := rest\<rparr>) = Inr x2"
  from publish_events [OF pub] obtain d where
    d: "events x2 = rest @ d" "list_all derived d" "derived event \<longrightarrow> d = []"
    by auto
  from d(2) have nd: "filter (\<lambda>e. \<not> derived e) d = []"
    by (induction d) auto
  show "(x2, s) \<in> measures [\<lambda>s. length (filter (\<lambda>e. \<not> derived e) (events s)),
                             \<lambda>s. length (events s)]"
    using ev d nd by (cases "derived event") auto
qed

declare drain.simps [simp del]

section \<open>The main program\<close>

text \<open>
  The main program creates three machines, one subscriber of each class (the numbers are
  the four objects, in the order of their creation), registers each under its own tag
  in a new service, and runs the loop on an array of events. \<open>main_state\<close> is the state
  in front of the loop, for any machines and any events.
\<close>

definition main_machines :: "Machine list" where
  "main_machines = [new_Machine ''001'', new_Machine ''002'', new_Machine ''003'']"

definition main_subscribe :: "state \<Rightarrow> outcome" where
  "main_subscribe s =
     and_then
       (and_then
          (and_then (subscribe SALE (MachineSaleSubscriber 0) s)
             (subscribe REFIL (MachineRefillSubscriber 1)))
          (subscribe LOW_STOCK_WARNING (StockWarningSubscriber 2)))
       (subscribe STOCK_LEVEL_OK (StockLevelOkSubscriber 3))"

definition main_state :: "Machine list \<Rightarrow> event list \<Rightarrow> state" where
  "main_state ms evs =
     (state_of (main_subscribe
        \<lparr>eventSubscribe = Map.empty, machines = ms, events = [],
         console = (if IS_DEBUG_LOG then [ConsoleLog ''[Main] Test Begin'' None] else [])\<rparr>))
     \<lparr>events := evs\<rparr>"

definition main_registry :: "string \<rightharpoonup> subscriber list" where
  "main_registry = eventSubscribe (main_state [] [])"

text \<open>
  Every subscriber writes one line with the event to the console when it is called.
  The events of these lines, in their order, are the deliveries that took place.
\<close>

fun delivered :: "console_line list \<Rightarrow> event list" where
  "delivered [] = []"
| "delivered (ConsoleLog _ (Some e) # ls) = e # delivered ls"
| "delivered (_ # ls) = delivered ls"

text \<open>
  The array that \<open>publish\<close> iterates over; no subscriber is called when the key has
  no entry.
\<close>

definition subscribers_of :: "state \<Rightarrow> string \<Rightarrow> subscriber list" where
  "subscribers_of s type = (case eventSubscribe s type of None \<Rightarrow> [] | Some subscribers \<Rightarrow> subscribers)"

section \<open>Numbers that are exact\<close>

lemma safe_less_Infinity: "(2::int) ^ 54 < Infinity"
  unfolding Infinity_def by (rule power_strict_increasing) simp_all

lemma round_double_safe:
  assumes "\<bar>x\<bar> \<le> 2 ^ 53"
  shows "round_double x = x"
proof -
  have inf: "\<bar>x\<bar> < Infinity"
    using assms safe_less_Infinity by simp
  show ?thesis
  proof (cases "\<bar>x\<bar> < 2 ^ 53")
    case True
    then have "double_ulp \<bar>x\<bar> = 1"
      by (simp add: double_ulp.simps [of "\<bar>x\<bar>"])
    with inf show ?thesis
      by (simp add: round_double_def Let_def min_def mult_sgn_abs)
  next
    case False
    with assms have e: "\<bar>x\<bar> = 2 ^ 53" by simp
    have "double_ulp (2 ^ 53) = 2"
      by code_simp
    moreover have "sgn x * 2 ^ 53 = x"
      using mult_sgn_abs [of x] e by simp
    ultimately show ?thesis
      using e inf by (simp add: round_double_def Let_def min_def)
  qed
qed

lemma js_add_safe:
  "\<bar>a\<bar> \<le> 2 ^ 53 \<Longrightarrow> \<bar>a + b\<bar> \<le> 2 ^ 53 \<Longrightarrow> js_add a b = a + b"
  using safe_less_Infinity by (auto simp: js_add_def round_double_safe)

lemma js_sub_safe:
  "\<bar>a\<bar> \<le> 2 ^ 53 \<Longrightarrow> \<bar>a - b\<bar> \<le> 2 ^ 53 \<Longrightarrow> js_sub a b = a - b"
  using safe_less_Infinity by (auto simp: js_sub_def round_double_safe)

lemma js_add_finite:
  "\<bar>a\<bar> < Infinity \<Longrightarrow> \<bar>b\<bar> < Infinity \<Longrightarrow> js_add a b = round_double (a + b)"
  by (simp add: js_add_def)

lemma js_sub_finite:
  "\<bar>a\<bar> < Infinity \<Longrightarrow> \<bar>b\<bar> < Infinity \<Longrightarrow> js_sub a b = round_double (a - b)"
  by (simp add: js_sub_def)

lemma js_add_rounds: "js_add 10 9007199254740991 = 9007199254741000"
  by code_simp

lemma js_sub_rounds: "js_sub 3 18014398509481984 = - 18014398509481980"
  by code_simp

section \<open>The state of the main program\<close>

lemma event_type_own: "event_type e \<notin> set Object_prototype"
  by (cases e) (simp_all add: Object_prototype_def)

lemma main_registry_simps:
  "main_registry SALE = Some [MachineSaleSubscriber 0]"
  "main_registry REFIL = Some [MachineRefillSubscriber 1]"
  "main_registry LOW_STOCK_WARNING = Some [StockWarningSubscriber 2]"
  "main_registry STOCK_LEVEL_OK = Some [StockLevelOkSubscriber 3]"
  by (simp_all add: main_registry_def main_state_def main_subscribe_def subscribe_def
        and_then_def Object_prototype_def)

lemma main_state_simps:
  "eventSubscribe (main_state ms evs) = main_registry"
  "machines (main_state ms evs) = ms"
  "events (main_state ms evs) = evs"
  "console (main_state ms evs) = [ConsoleLog ''[Main] Test Begin'' None]"
  "delivered (console (main_state ms evs)) = []"
  by (simp_all add: main_registry_def main_state_def main_subscribe_def subscribe_def
        and_then_def Object_prototype_def IS_DEBUG_LOG_def)

lemma main_state_events: "(main_state ms evs)\<lparr>events := evs'\<rparr> = main_state ms evs'"
  by (simp add: main_state_def)

section \<open>The machines under a sale or a refill\<close>

lemma getMachineById_id:
  "getMachineById ms M = Some mach \<Longrightarrow> id_machine mach = M"
  by (auto simp: getMachineById_def find_Some_iff)

lemma getMachineById_setStockLevel:
  "getMachineById ms M = Some mach \<Longrightarrow>
     getMachineById (setStockLevel M v ms) M = Some (mach\<lparr>stockLevel := v\<rparr>)"
  by (induction ms) (auto simp: getMachineById_def split: if_splits)

lemma getMachineById_setStockLevel_other:
  "M' \<noteq> M \<Longrightarrow> getMachineById (setStockLevel M v ms) M' = getMachineById ms M'"
  by (induction ms) (auto simp: getMachineById_def)

lemma setStockLevel_unknown:
  "getMachineById ms M = None \<Longrightarrow> setStockLevel M v ms = ms"
  by (induction ms) (auto simp: getMachineById_def split: if_splits)

text \<open>
  C4. For every machine \<open>M\<close> of the inventory, with stock \<open>S\<close>: the sale subscriber, given
  a sale of \<open>q\<close> for \<open>M\<close>, returns normally and leaves the stock of \<open>M\<close> at the difference
  of \<open>S\<close> and \<open>q\<close> as doubles, which for finite numbers is the double nearest to \<open>S - q\<close>,
  and is \<open>S - q\<close> itself when \<open>S\<close> and \<open>S - q\<close> are at most \<open>2^53\<close> in absolute value;
  the refill subscriber, given a refill of \<open>r\<close>, does the same with the sum. Nothing
  else is applied to the result, no lower and no upper bound: it may be negative, and
  as large as a double can be.
\<close>

theorem stock_arithmetic_unclamped:
  assumes "getMachineById (machines s) M = Some mach"
    and "S = stockLevel mach"
  shows "(\<exists>s'. handle (MachineSaleSubscriber a) (MachineSaleEvent q M) s = Inr s'
            \<and> getMachineById (machines s') M = Some (mach\<lparr>stockLevel := js_sub S q\<rparr>)
            \<and> (\<bar>S\<bar> < Infinity \<and> \<bar>q\<bar> < Infinity \<longrightarrow>
                 getMachineById (machines s') M
                   = Some (mach\<lparr>stockLevel := round_double (S - q)\<rparr>))
            \<and> (\<bar>S\<bar> \<le> 2 ^ 53 \<and> \<bar>S - q\<bar> \<le> 2 ^ 53 \<longrightarrow>
                 getMachineById (machines s') M = Some (mach\<lparr>stockLevel := S - q\<rparr>)))
       \<and> (\<exists>s'. handle (MachineRefillSubscriber b) (MachineRefillEvent r M) s = Inr s'
            \<and> getMachineById (machines s') M = Some (mach\<lparr>stockLevel := js_add S r\<rparr>)
            \<and> (\<bar>S\<bar> < Infinity \<and> \<bar>r\<bar> < Infinity \<longrightarrow>
                 getMachineById (machines s') M
                   = Some (mach\<lparr>stockLevel := round_double (S + r)\<rparr>))
            \<and> (\<bar>S\<bar> \<le> 2 ^ 53 \<and> \<bar>S + r\<bar> \<le> 2 ^ 53 \<longrightarrow>
                 getMachineById (machines s') M = Some (mach\<lparr>stockLevel := S + r\<rparr>)))"
proof -
  have idm: "id_machine mach = M"
    using assms(1) by (rule getMachineById_id)
  have upd: "\<And>v. getMachineById (setStockLevel M v (machines s)) M
                  = Some (mach\<lparr>stockLevel := v\<rparr>)"
    using assms(1) by (rule getMachineById_setStockLevel)
  have sale: "\<exists>s'. handle (MachineSaleSubscriber a) (MachineSaleEvent q M) s = Inr s'
            \<and> getMachineById (machines s') M = Some (mach\<lparr>stockLevel := js_sub S q\<rparr>)"
    using assms idm upd
    by (simp add: handle_MachineSaleSubscriber_def debug_log_def console_log_def
          push_def Let_def)
  have refill: "\<exists>s'. handle (MachineRefillSubscriber b) (MachineRefillEvent r M) s = Inr s'
            \<and> getMachineById (machines s') M = Some (mach\<lparr>stockLevel := js_add S r\<rparr>)"
    using assms idm upd
    by (simp add: handle_MachineRefillSubscriber_def debug_log_def console_log_def
          push_def Let_def)
  from sale refill show ?thesis
    by (auto simp: js_sub_safe js_add_safe js_sub_finite js_add_finite)
qed

theorem stock_arithmetic_unclamped_witness:
  "getMachineById (machines (main_state main_machines [])) ''002'' = Some (new_Machine ''002'')
   \<and> (10::int) = stockLevel (new_Machine ''002'')
   \<and> (\<exists>s'. handle (MachineSaleSubscriber 0) (MachineSaleEvent 25 ''002'')
              (main_state main_machines []) = Inr s'
          \<and> getMachineById (machines s') ''002''
               = Some \<lparr>stockLevel = - 15, id_machine = ''002''\<rparr>)
   \<and> (\<exists>s'. handle (MachineRefillSubscriber 1) (MachineRefillEvent 9007199254740991 ''002'')
              (main_state main_machines []) = Inr s'
          \<and> getMachineById (machines s') ''002''
               = Some \<lparr>stockLevel = 9007199254741000, id_machine = ''002''\<rparr>)"
proof -
  have h: "getMachineById (machines (main_state main_machines [])) ''002''
      = Some (new_Machine ''002'')"
    by (simp add: main_state_simps main_machines_def getMachineById_def new_Machine_def)
  have S: "(10::int) = stockLevel (new_Machine ''002'')"
    by (simp add: new_Machine_def)
  have sub: "js_sub 10 25 = - 15"
    by (simp add: js_sub_safe)
  note t = stock_arithmetic_unclamped [OF h S, of 0 25 1 9007199254740991]
  from t have sale: "\<exists>s'. handle (MachineSaleSubscriber 0) (MachineSaleEvent 25 ''002'')
              (main_state main_machines []) = Inr s'
          \<and> getMachineById (machines s') ''002''
               = Some ((new_Machine ''002'')\<lparr>stockLevel := js_sub 10 25\<rparr>)"
    by blast
  from t have refill: "\<exists>s'. handle (MachineRefillSubscriber 1)
              (MachineRefillEvent 9007199254740991 ''002'') (main_state main_machines []) = Inr s'
          \<and> getMachineById (machines s') ''002''
               = Some ((new_Machine ''002'')\<lparr>stockLevel := js_add 10 9007199254740991\<rparr>)"
    by blast
  from sale refill h show ?thesis
    by (simp add: new_Machine_def sub js_add_rounds)
qed

text \<open>
  C4 does not hold with the exact sum in place of the sum of doubles: the stock after
  a refill is not always \<open>S + r\<close>. A machine at 10 that is
  refilled with \<open>2^53 - 1\<close> is left at 9007199254741000, which is not
  \<open>10 + (2^53 - 1) = 9007199254741001\<close>.
\<close>

theorem stock_arithmetic_exact_counterexample:
  "getMachineById (machines (main_state main_machines [])) ''002'' = Some (new_Machine ''002'')
   \<and> stockLevel (new_Machine ''002'') = 10
   \<and> getMachineById
        (machines (state_of (handle (MachineRefillSubscriber 1)
           (MachineRefillEvent 9007199254740991 ''002'') (main_state main_machines []))))
        ''002''
      = Some ((new_Machine ''002'')\<lparr>stockLevel := 9007199254741000\<rparr>)
   \<and> getMachineById
        (machines (state_of (handle (MachineRefillSubscriber 1)
           (MachineRefillEvent 9007199254740991 ''002'') (main_state main_machines []))))
        ''002''
      \<noteq> Some ((new_Machine ''002'')\<lparr>stockLevel := 10 + 9007199254740991\<rparr>)"
  by (simp add: handle_MachineRefillSubscriber_def main_state_simps main_machines_def
        getMachineById_def new_Machine_def debug_log_def console_log_def push_def Let_def
        js_add_rounds LOW_STOCK_WARNING_THRESHOLD_def)

section \<open>Events for a machine that does not exist\<close>

lemma drain_empty: "events s = [] \<Longrightarrow> drain s = Inr s"
  by (simp add: drain.simps [of s])

lemma drain_step:
  "events s = e # rest \<Longrightarrow> publish e (s\<lparr>events := rest\<rparr>) = Inr s' \<Longrightarrow> drain s = drain s'"
  by (cases "events s'") (simp_all add: drain.simps [of s] drain_empty)

lemma drain_thrown:
  "events s = e # rest \<Longrightarrow> publish e (s\<lparr>events := rest\<rparr>) = Inl thrown \<Longrightarrow>
     drain s = Inl thrown"
  by (simp add: drain.simps [of s])

text \<open>
  C7. When the event names a machine that is not in the inventory, the sale subscriber
  and the refill subscriber return normally: the registry, the machines and the pending
  events are what they were, and only the console has two more lines. The subscribers
  registered after it are called on that state, and when the subscriber is the only one
  registered for the event the main loop goes on with the rest of the queue.
\<close>

theorem unknown_machine_skipped:
  assumes "getMachineById (machines s) (machineId e) = None"
    and "sub = MachineSaleSubscriber a \<and> tag = ''[MachineSaleSubscriber] Event receive''
       \<or> sub = MachineRefillSubscriber a \<and> tag = ''[MachineRefillSubscriber] Event receive''"
    and "s' = s\<lparr>console := console s @
            [ConsoleLog tag (Some e), ConsoleError ''Unknown machine event occurs'']\<rparr>"
  shows "handle sub e s = Inr s'
       \<and> eventSubscribe s' = eventSubscribe s \<and> machines s' = machines s
       \<and> events s' = events s
       \<and> forEach_handle (sub # subs) e s = forEach_handle subs e s'
       \<and> (eventSubscribe s (event_type e) = Some [sub] \<longrightarrow>
            drain (s\<lparr>events := e # rest\<rparr>) = drain (s'\<lparr>events := rest\<rparr>))"
proof -
  have h: "handle sub e s = Inr s'"
    using assms
    by (auto simp: handle_MachineSaleSubscriber_def handle_MachineRefillSubscriber_def
          debug_log_def console_log_def console_error_def IS_DEBUG_LOG_def Let_def)
  have frame: "eventSubscribe s' = eventSubscribe s \<and> machines s' = machines s
       \<and> events s' = events s"
    using assms(3) by simp
  have each: "forEach_handle (sub # subs) e s = forEach_handle subs e s'"
    using h by simp
  have loop: "drain (s\<lparr>events := e # rest\<rparr>) = drain (s'\<lparr>events := rest\<rparr>)"
    if reg: "eventSubscribe s (event_type e) = Some [sub]"
  proof -
    have h': "handle sub e (s\<lparr>events := rest\<rparr>) = Inr (s'\<lparr>events := rest\<rparr>)"
      using assms
      by (auto simp: handle_MachineSaleSubscriber_def handle_MachineRefillSubscriber_def
            debug_log_def console_log_def console_error_def IS_DEBUG_LOG_def Let_def)
    have "publish e (s\<lparr>events := e # rest, events := rest\<rparr>) = Inr (s'\<lparr>events := rest\<rparr>)"
      using reg h' by (simp add: publish_def)
    then show ?thesis
      by (intro drain_step [where e = e and rest = rest]) simp_all
  qed
  from h frame each loop show ?thesis by blast
qed

theorem unknown_machine_skipped_witness:
  "getMachineById (machines (main_state main_machines [])) (machineId (MachineSaleEvent 2 ''007'')) = None
   \<and> handle (MachineSaleSubscriber 0) (MachineSaleEvent 2 ''007'') (main_state main_machines [])
       = Inr ((main_state main_machines [])\<lparr>console :=
               [ConsoleLog ''[Main] Test Begin'' None,
                ConsoleLog ''[MachineSaleSubscriber] Event receive'' (Some (MachineSaleEvent 2 ''007'')),
                ConsoleError ''Unknown machine event occurs'']\<rparr>)
   \<and> eventSubscribe (main_state main_machines []) SALE = Some [MachineSaleSubscriber 0]
   \<and> drain (main_state main_machines [MachineSaleEvent 2 ''007'', MachineSaleEvent 1 ''001''])
       = drain ((main_state main_machines [MachineSaleEvent 1 ''001''])\<lparr>console :=
               [ConsoleLog ''[Main] Test Begin'' None,
                ConsoleLog ''[MachineSaleSubscriber] Event receive'' (Some (MachineSaleEvent 2 ''007'')),
                ConsoleError ''Unknown machine event occurs'']\<rparr>)"
proof -
  let ?s = "main_state main_machines []"
  let ?e = "MachineSaleEvent 2 ''007''"
  let ?s' = "?s\<lparr>console := console ?s @
            [ConsoleLog ''[MachineSaleSubscriber] Event receive'' (Some ?e),
             ConsoleError ''Unknown machine event occurs'']\<rparr>"
  have h1: "getMachineById (machines ?s) (machineId ?e) = None"
    by (simp add: main_state_simps main_machines_def new_Machine_def getMachineById_def)
  have h2: "MachineSaleSubscriber 0 = MachineSaleSubscriber 0
             \<and> ''[MachineSaleSubscriber] Event receive'' = ''[MachineSaleSubscriber] Event receive''
       \<or> MachineSaleSubscriber 0 = MachineRefillSubscriber 0
             \<and> ''[MachineSaleSubscriber] Event receive'' = ''[MachineRefillSubscriber] Event receive''"
    by simp
  have reg: "eventSubscribe ?s SALE = Some [MachineSaleSubscriber 0]"
    by (simp add: main_state_simps main_registry_simps)
  from unknown_machine_skipped [OF h1 h2 refl, of "[]" "[MachineSaleEvent 1 ''001'']"] h1 reg
  show ?thesis
    by (simp add: main_state_def main_subscribe_def subscribe_def and_then_def
          Object_prototype_def IS_DEBUG_LOG_def)
qed

section \<open>Subscribing and unsubscribing\<close>

lemma filter_neq_removeAll: "filter (\<lambda>x. x \<noteq> h) xs = removeAll h xs"
  by (induction xs) auto

lemma subscribers_of_subscribe:
  "subscribers_of (state_of (subscribe type handler s)) other
     = (if other = type \<and> (eventSubscribe s type \<noteq> None \<or> type \<notin> set Object_prototype)
        then subscribers_of s type @ [handler] else subscribers_of s other)"
  by (auto simp: subscribers_of_def subscribe_def split: option.splits)

lemma subscribers_of_unsubscribe:
  "subscribers_of (state_of (unsubscribe type handler s)) other
     = (if other = type then removeAll handler (subscribers_of s type)
        else subscribers_of s other)"
  by (auto simp: subscribers_of_def unsubscribe_def console_log_def filter_neq_removeAll
        split: option.splits)

lemma subscribe_returns:
  "(\<exists>s'. subscribe type handler s = Inr s')
     \<longleftrightarrow> eventSubscribe s type \<noteq> None \<or> type \<notin> set Object_prototype"
  by (auto simp: subscribe_def split: option.splits)

lemma unsubscribe_returns:
  "(\<exists>s'. unsubscribe type handler s = Inr s')
     \<longleftrightarrow> eventSubscribe s type \<noteq> None \<or> type \<notin> set Object_prototype"
  by (auto simp: unsubscribe_def split: option.splits)

lemma subscribe_frame:
  "machines (state_of (subscribe type handler s)) = machines s
   \<and> events (state_of (subscribe type handler s)) = events s
   \<and> console (state_of (subscribe type handler s)) = console s"
  by (simp add: subscribe_def split: option.splits)

lemma subscribe_entry:
  "subscribe type handler s = Inr s' \<Longrightarrow> eventSubscribe s' type \<noteq> None"
  by (auto simp: subscribe_def split: option.splits if_splits)

text \<open>
  C5. In the state in which \<open>unsubscribe(type, handler)\<close> ends, the subscribers under
  \<open>type\<close> are those that were there and are not \<open>handler\<close>, in their order, and none
  that is; the entry of every other tag is what it was, whether or not \<open>handler\<close> is
  registered there; and when \<open>handler\<close> is not registered under \<open>type\<close> (also when
  nothing is) the registry is what it was. The machines and the pending events are
  never touched. The call returns normally, except that for a tag without an entry
  that names an inherited property of the registry object it throws a \<open>TypeError\<close> and
  leaves the whole state as it was.
\<close>

theorem unsubscribe_scoped:
  "(eventSubscribe s type = Some subscribers \<longrightarrow>
      unsubscribe type handler s
        = Inr (s\<lparr>eventSubscribe := (eventSubscribe s)(type \<mapsto> removeAll handler subscribers)\<rparr>))
   \<and> handler \<notin> set (subscribers_of (state_of (unsubscribe type handler s)) type)
   \<and> (\<forall>other. other \<noteq> type \<longrightarrow>
         eventSubscribe (state_of (unsubscribe type handler s)) other = eventSubscribe s other)
   \<and> (handler \<notin> set (subscribers_of s type) \<longrightarrow>
         eventSubscribe (state_of (unsubscribe type handler s)) = eventSubscribe s)
   \<and> machines (state_of (unsubscribe type handler s)) = machines s
   \<and> events (state_of (unsubscribe type handler s)) = events s
   \<and> (eventSubscribe s type = None \<and> type \<notin> set Object_prototype \<longrightarrow>
         unsubscribe type handler s = Inr (console_log ''Subscribe not found.'' None s))
   \<and> (eventSubscribe s type = None \<and> type \<in> set Object_prototype \<longrightarrow>
         unsubscribe type handler s = Inl (TypeError, s))"
proof -
  have a: "eventSubscribe s type = Some subscribers \<longrightarrow>
      unsubscribe type handler s
        = Inr (s\<lparr>eventSubscribe := (eventSubscribe s)(type \<mapsto> removeAll handler subscribers)\<rparr>)"
    by (simp add: unsubscribe_def filter_neq_removeAll)
  have b: "handler \<notin> set (subscribers_of (state_of (unsubscribe type handler s)) type)"
    by (simp add: subscribers_of_unsubscribe)
  have c: "\<forall>other. other \<noteq> type \<longrightarrow>
         eventSubscribe (state_of (unsubscribe type handler s)) other = eventSubscribe s other"
    by (simp add: unsubscribe_def console_log_def split: option.splits)
  have d: "handler \<notin> set (subscribers_of s type) \<longrightarrow>
         eventSubscribe (state_of (unsubscribe type handler s)) = eventSubscribe s"
  proof (cases "eventSubscribe s type")
    case None
    then show ?thesis by (simp add: unsubscribe_def console_log_def)
  next
    case (Some subs)
    show ?thesis
    proof
      assume "handler \<notin> set (subscribers_of s type)"
      with Some have "filter (\<lambda>x. x \<noteq> handler) subs = subs"
        by (simp add: subscribers_of_def filter_neq_removeAll)
      with Some show "eventSubscribe (state_of (unsubscribe type handler s)) = eventSubscribe s"
        by (simp add: unsubscribe_def map_upd_triv)
    qed
  qed
  have e: "machines (state_of (unsubscribe type handler s)) = machines s
      \<and> events (state_of (unsubscribe type handler s)) = events s"
    by (simp add: unsubscribe_def console_log_def split: option.splits)
  have f: "(eventSubscribe s type = None \<and> type \<notin> set Object_prototype \<longrightarrow>
         unsubscribe type handler s = Inr (console_log ''Subscribe not found.'' None s))
      \<and> (eventSubscribe s type = None \<and> type \<in> set Object_prototype \<longrightarrow>
         unsubscribe type handler s = Inl (TypeError, s))"
    by (simp add: unsubscribe_def)
  from a b c d e f show ?thesis by blast
qed

theorem unsubscribe_scoped_witness:
  "eventSubscribe (state_of (subscribe SALE (MachineRefillSubscriber 1)
       (main_state main_machines []))) SALE
     = Some [MachineSaleSubscriber 0, MachineRefillSubscriber 1]
   \<and> eventSubscribe (state_of (unsubscribe SALE (MachineRefillSubscriber 1)
        (state_of (subscribe SALE (MachineRefillSubscriber 1)
           (main_state main_machines []))))) SALE
     = Some [MachineSaleSubscriber 0]
   \<and> REFIL \<noteq> SALE
   \<and> eventSubscribe (state_of (unsubscribe SALE (MachineRefillSubscriber 1)
        (state_of (subscribe SALE (MachineRefillSubscriber 1)
           (main_state main_machines []))))) REFIL
     = Some [MachineRefillSubscriber 1]
   \<and> MachineRefillSubscriber 1 \<notin> set (subscribers_of (main_state main_machines []) SALE)
   \<and> eventSubscribe (state_of (unsubscribe SALE (MachineRefillSubscriber 1)
        (main_state main_machines [])))
     = eventSubscribe (main_state main_machines [])
   \<and> eventSubscribe (main_state main_machines []) ''toString'' = None
   \<and> ''toString'' \<in> set Object_prototype
   \<and> unsubscribe ''toString'' (MachineSaleSubscriber 0) (main_state main_machines [])
     = Inl (TypeError, main_state main_machines [])
   \<and> eventSubscribe (main_state main_machines []) ''restock'' = None
   \<and> ''restock'' \<notin> set Object_prototype
   \<and> unsubscribe ''restock'' (MachineSaleSubscriber 0) (main_state main_machines [])
     = Inr (console_log ''Subscribe not found.'' None (main_state main_machines []))"
proof -
  let ?m = "main_state main_machines []"
  let ?s = "state_of (subscribe SALE (MachineRefillSubscriber 1) ?m)"
  have r1: "eventSubscribe ?s SALE = Some [MachineSaleSubscriber 0, MachineRefillSubscriber 1]"
    by (simp add: main_state_simps main_registry_simps subscribe_def)
  have r2: "eventSubscribe ?s REFIL = Some [MachineRefillSubscriber 1]"
    by (simp add: main_state_simps main_registry_simps subscribe_def)
  have r3: "MachineRefillSubscriber 1 \<notin> set (subscribers_of ?m SALE)"
    by (simp add: main_state_simps main_registry_simps subscribers_of_def)
  have r4: "eventSubscribe ?m ''toString'' = None \<and> eventSubscribe ?m ''restock'' = None"
    by (simp add: main_registry_def main_state_def main_subscribe_def subscribe_def
          and_then_def Object_prototype_def)
  have r5: "''toString'' \<in> set Object_prototype \<and> ''restock'' \<notin> set Object_prototype"
    by (simp add: Object_prototype_def)
  have ne: "REFIL \<noteq> SALE" by simp
  note a = unsubscribe_scoped [of ?s SALE "[MachineSaleSubscriber 0, MachineRefillSubscriber 1]"
      "MachineRefillSubscriber 1"]
  note b = unsubscribe_scoped [of ?m SALE "[]" "MachineRefillSubscriber 1"]
  note c = unsubscribe_scoped [of ?m "''toString''" "[]" "MachineSaleSubscriber 0"]
  note d = unsubscribe_scoped [of ?m "''restock''" "[]" "MachineSaleSubscriber 0"]
  have a1: "eventSubscribe (state_of (unsubscribe SALE (MachineRefillSubscriber 1) ?s)) SALE
      = Some [MachineSaleSubscriber 0]"
    using a r1 by simp
  have a2: "eventSubscribe (state_of (unsubscribe SALE (MachineRefillSubscriber 1) ?s)) REFIL
      = Some [MachineRefillSubscriber 1]"
    using a r2 ne by simp
  have b1: "eventSubscribe (state_of (unsubscribe SALE (MachineRefillSubscriber 1) ?m))
      = eventSubscribe ?m"
    using b r3 by blast
  have c1: "unsubscribe ''toString'' (MachineSaleSubscriber 0) ?m = Inl (TypeError, ?m)"
    using c r4 r5 by blast
  have d1: "unsubscribe ''restock'' (MachineSaleSubscriber 0) ?m
      = Inr (console_log ''Subscribe not found.'' None ?m)"
    using d r4 r5 by blast
  from r1 a1 ne a2 r3 b1 r4 r5 c1 d1 show ?thesis by blast
qed

text \<open>
  C10. \<open>subscribe(type, handler)\<close> followed by \<open>unsubscribe(type, handler)\<close>: when
  \<open>handler\<close> is not registered under \<open>type\<close>, the state in which the two calls end
  has, for every tag, the array of subscribers that \<open>publish\<close> calls for it in the
  state before; the machines and the pending events are not touched. When \<open>handler\<close>
  was registered under \<open>type\<close> the array of \<open>type\<close> is not given back, since every
  occurrence is removed. Both calls return normally, except that for a tag without an
  entry that names an inherited property of the registry object the first call throws
  a \<open>TypeError\<close>, the second is not made, and the whole state is as it was.
\<close>

theorem subscribe_unsubscribe_roundtrip:
  "(handler \<notin> set (subscribers_of s type) \<longrightarrow>
      (\<forall>other. subscribers_of (state_of (and_then (subscribe type handler s)
                                            (unsubscribe type handler))) other
                = subscribers_of s other))
   \<and> (handler \<in> set (subscribers_of s type) \<longrightarrow>
        subscribers_of (state_of (and_then (subscribe type handler s)
                                    (unsubscribe type handler))) type
          \<noteq> subscribers_of s type)
   \<and> machines (state_of (and_then (subscribe type handler s) (unsubscribe type handler)))
       = machines s
   \<and> events (state_of (and_then (subscribe type handler s) (unsubscribe type handler)))
       = events s
   \<and> (eventSubscribe s type \<noteq> None \<or> type \<notin> set Object_prototype \<longrightarrow>
        (\<exists>s1 s2. subscribe type handler s = Inr s1 \<and> unsubscribe type handler s1 = Inr s2
           \<and> and_then (subscribe type handler s) (unsubscribe type handler) = Inr s2))
   \<and> (eventSubscribe s type = None \<and> type \<in> set Object_prototype \<longrightarrow>
        and_then (subscribe type handler s) (unsubscribe type handler) = Inl (TypeError, s))"
proof -
  let ?r = "and_then (subscribe type handler s) (unsubscribe type handler)"
  show ?thesis
  proof (cases "eventSubscribe s type = None \<and> type \<in> set Object_prototype")
    case True
    then have thrown: "?r = Inl (TypeError, s)"
      by (simp add: and_then_def subscribe_def)
    from True have "subscribers_of s type = []"
      by (simp add: subscribers_of_def)
    with thrown True show ?thesis by simp
  next
    case False
    then obtain s1 where s1: "subscribe type handler s = Inr s1"
      using subscribe_returns [of type handler s] by blast
    have "eventSubscribe s1 type \<noteq> None"
      using s1 by (rule subscribe_entry)
    then obtain s2 where s2: "unsubscribe type handler s1 = Inr s2"
      using unsubscribe_returns [of type handler s1] by blast
    have r: "?r = Inr s2"
      using s1 s2 by (simp add: and_then_def)
    have st1: "s1 = state_of (subscribe type handler s)"
      using s1 by simp
    have st2: "s2 = state_of (unsubscribe type handler s1)"
      using s2 by simp
    have subs: "\<And>other. subscribers_of s2 other
        = (if other = type then removeAll handler (subscribers_of s type @ [handler])
           else subscribers_of s other)"
      unfolding st2 subscribers_of_unsubscribe unfolding st1 subscribers_of_subscribe
      using False by auto
    have a: "handler \<notin> set (subscribers_of s type) \<longrightarrow>
        (\<forall>other. subscribers_of s2 other = subscribers_of s other)"
      by (simp add: subs)
    have b: "handler \<in> set (subscribers_of s type) \<longrightarrow>
        subscribers_of s2 type \<noteq> subscribers_of s type"
    proof
      assume "handler \<in> set (subscribers_of s type)"
      moreover have "handler \<notin> set (removeAll handler (subscribers_of s type))" by simp
      ultimately have "removeAll handler (subscribers_of s type) \<noteq> subscribers_of s type"
        by metis
      then show "subscribers_of s2 type \<noteq> subscribers_of s type"
        by (simp add: subs)
    qed
    have c: "machines s2 = machines s \<and> events s2 = events s"
      using s1 s2
      by (auto simp: unsubscribe_def subscribe_def console_log_def
            split: option.splits if_splits)
    from a b c r s1 s2 False show ?thesis by auto
  qed
qed

theorem subscribe_unsubscribe_roundtrip_witness:
  "MachineRefillSubscriber 1 \<notin> set (subscribers_of (main_state main_machines []) SALE)
   \<and> subscribers_of (state_of (and_then
        (subscribe SALE (MachineRefillSubscriber 1) (main_state main_machines []))
        (unsubscribe SALE (MachineRefillSubscriber 1)))) SALE
      = [MachineSaleSubscriber 0]
   \<and> subscribers_of (state_of (and_then
        (subscribe SALE (MachineRefillSubscriber 1) (main_state main_machines []))
        (unsubscribe SALE (MachineRefillSubscriber 1)))) REFIL
      = [MachineRefillSubscriber 1]
   \<and> MachineSaleSubscriber 0 \<in> set (subscribers_of (main_state main_machines []) SALE)
   \<and> subscribers_of (state_of (and_then
        (subscribe SALE (MachineSaleSubscriber 0) (main_state main_machines []))
        (unsubscribe SALE (MachineSaleSubscriber 0)))) SALE
      \<noteq> subscribers_of (main_state main_machines []) SALE
   \<and> eventSubscribe (main_state main_machines []) ''constructor'' = None
   \<and> ''constructor'' \<in> set Object_prototype
   \<and> and_then (subscribe ''constructor'' (MachineSaleSubscriber 0) (main_state main_machines []))
        (unsubscribe ''constructor'' (MachineSaleSubscriber 0))
      = Inl (TypeError, main_state main_machines [])"
proof -
  let ?s = "main_state main_machines []"
  have r1: "subscribers_of ?s SALE = [MachineSaleSubscriber 0]"
    by (simp add: main_state_simps main_registry_simps subscribers_of_def)
  have r2: "subscribers_of ?s REFIL = [MachineRefillSubscriber 1]"
    by (simp add: main_state_simps main_registry_simps subscribers_of_def)
  have r3: "eventSubscribe ?s ''constructor'' = None"
    by (simp add: main_registry_def main_state_def main_subscribe_def subscribe_def
          and_then_def Object_prototype_def)
  have r4: "''constructor'' \<in> set Object_prototype"
    by (simp add: Object_prototype_def)
  note a = subscribe_unsubscribe_roundtrip [of "MachineRefillSubscriber 1" ?s SALE]
  note b = subscribe_unsubscribe_roundtrip [of "MachineSaleSubscriber 0" ?s SALE]
  note c = subscribe_unsubscribe_roundtrip [of "MachineSaleSubscriber 0" ?s "''constructor''"]
  have c1: "and_then (subscribe ''constructor'' (MachineSaleSubscriber 0) ?s)
        (unsubscribe ''constructor'' (MachineSaleSubscriber 0)) = Inl (TypeError, ?s)"
    using c r3 r4 by blast
  from a b r1 r2 r3 r4 c1 show ?thesis by simp
qed

section \<open>Publishing\<close>

text \<open>
  C8. When no subscriber is registered for the tag of the event, because the tag has no
  entry or because its array is empty, \<open>publish\<close> returns normally and the pending
  events, the machines and the registry are what they were.
\<close>

theorem publish_without_subscriber:
  assumes "eventSubscribe s (event_type e) = None \<or> eventSubscribe s (event_type e) = Some []"
  shows "\<exists>s'. publish e s = Inr s' \<and> events s' = events s \<and> machines s' = machines s
           \<and> eventSubscribe s' = eventSubscribe s"
  using assms event_type_own [of e] by (auto simp: publish_def console_log_def)

theorem publish_without_subscriber_witness:
  "(eventSubscribe \<lparr>eventSubscribe = Map.empty, machines = main_machines,
       events = [MachineRefillEvent 3 ''001''], console = []\<rparr>
      (event_type (MachineSaleEvent 1 ''001'')) = None
    \<or> eventSubscribe \<lparr>eventSubscribe = Map.empty, machines = main_machines,
       events = [MachineRefillEvent 3 ''001''], console = []\<rparr>
      (event_type (MachineSaleEvent 1 ''001'')) = Some [])
   \<and> (\<exists>s'. publish (MachineSaleEvent 1 ''001'')
              \<lparr>eventSubscribe = Map.empty, machines = main_machines,
               events = [MachineRefillEvent 3 ''001''], console = []\<rparr> = Inr s'
          \<and> events s' = [MachineRefillEvent 3 ''001''] \<and> machines s' = main_machines
          \<and> eventSubscribe s' = Map.empty)
   \<and> (eventSubscribe (state_of (unsubscribe SALE (MachineSaleSubscriber 0)
          (main_state main_machines [MachineRefillEvent 3 ''001''])))
        (event_type (MachineSaleEvent 1 ''001'')) = None
      \<or> eventSubscribe (state_of (unsubscribe SALE (MachineSaleSubscriber 0)
          (main_state main_machines [MachineRefillEvent 3 ''001''])))
        (event_type (MachineSaleEvent 1 ''001'')) = Some [])
   \<and> (\<exists>s'. publish (MachineSaleEvent 1 ''001'')
              (state_of (unsubscribe SALE (MachineSaleSubscriber 0)
                 (main_state main_machines [MachineRefillEvent 3 ''001'']))) = Inr s'
          \<and> events s' = [MachineRefillEvent 3 ''001''] \<and> machines s' = main_machines
          \<and> eventSubscribe s' = eventSubscribe (state_of (unsubscribe SALE (MachineSaleSubscriber 0)
                 (main_state main_machines [MachineRefillEvent 3 ''001'']))))"
proof -
  let ?s1 = "\<lparr>eventSubscribe = Map.empty, machines = main_machines,
               events = [MachineRefillEvent 3 ''001''], console = []\<rparr>"
  let ?s2 = "state_of (unsubscribe SALE (MachineSaleSubscriber 0)
                 (main_state main_machines [MachineRefillEvent 3 ''001'']))"
  let ?e = "MachineSaleEvent 1 ''001''"
  have h1: "eventSubscribe ?s1 (event_type ?e) = None
      \<or> eventSubscribe ?s1 (event_type ?e) = Some []"
    by simp
  have h2: "eventSubscribe ?s2 (event_type ?e) = None
      \<or> eventSubscribe ?s2 (event_type ?e) = Some []"
    by (simp add: main_state_simps main_registry_simps unsubscribe_def)
  have m2: "machines ?s2 = main_machines \<and> events ?s2 = [MachineRefillEvent 3 ''001'']"
    by (simp add: main_state_simps main_registry_simps unsubscribe_def)
  from publish_without_subscriber [OF h1] publish_without_subscriber [OF h2] h1 h2 m2
  show ?thesis by simp
qed

text \<open>
  C1. With the sale subscriber alone under the tag of sales and the refill subscriber
  alone under the tag of refills, and a machine of the inventory at stock \<open>S\<close>: publishing
  a sale of \<open>q\<close> returns normally and leaves the machine at the stock \<open>S'\<close>, the
  difference of \<open>S\<close> and \<open>q\<close> as doubles; when \<open>S\<close> is at least the threshold and \<open>S'\<close> is
  below it, the pending events are what they were followed by one warning with \<open>S'\<close>
  and the id of the machine; when \<open>S\<close> and \<open>S'\<close> are on the same side of the threshold,
  the pending events are what they were. Publishing a refill of \<open>r\<close> does the same with
  the sum, \<open>S\<close> below the threshold, \<open>S'\<close> at least the threshold, and one stock-ok
  event.
\<close>

theorem threshold_edge_triggered:
  assumes "eventSubscribe s SALE = Some [MachineSaleSubscriber a]"
    and "eventSubscribe s REFIL = Some [MachineRefillSubscriber b]"
    and "getMachineById (machines s) M = Some mach"
    and "S = stockLevel mach"
    and "T = LOW_STOCK_WARNING_THRESHOLD"
  shows "(\<exists>s' S'. publish (MachineSaleEvent q M) s = Inr s'
           \<and> getMachineById (machines s') M = Some (mach\<lparr>stockLevel := S'\<rparr>)
           \<and> S' = js_sub S q
           \<and> (S \<ge> T \<and> S' < T \<longrightarrow>
                events s' = events s @ [LowStockWarningEvent S' M])
           \<and> ((S < T \<and> S' < T) \<or> (S \<ge> T \<and> S' \<ge> T) \<longrightarrow> events s' = events s))
       \<and> (\<exists>s' S'. publish (MachineRefillEvent r M) s = Inr s'
           \<and> getMachineById (machines s') M = Some (mach\<lparr>stockLevel := S'\<rparr>)
           \<and> S' = js_add S r
           \<and> (S < T \<and> S' \<ge> T \<longrightarrow>
                events s' = events s @ [StockLevelOkEvent S' M])
           \<and> ((S < T \<and> S' < T) \<or> (S \<ge> T \<and> S' \<ge> T) \<longrightarrow> events s' = events s))"
proof -
  have idm: "id_machine mach = M"
    using assms(3) by (rule getMachineById_id)
  have upd: "\<And>v. getMachineById (setStockLevel M v (machines s)) M
                  = Some (mach\<lparr>stockLevel := v\<rparr>)"
    using assms(3) by (rule getMachineById_setStockLevel)
  have sale: "\<exists>s' S'. publish (MachineSaleEvent q M) s = Inr s'
           \<and> getMachineById (machines s') M = Some (mach\<lparr>stockLevel := S'\<rparr>)
           \<and> S' = js_sub S q
           \<and> (S \<ge> T \<and> S' < T \<longrightarrow>
                events s' = events s @ [LowStockWarningEvent S' M])
           \<and> ((S < T \<and> S' < T) \<or> (S \<ge> T \<and> S' \<ge> T) \<longrightarrow> events s' = events s)"
    using assms idm upd
    by (auto simp: publish_def handle_MachineSaleSubscriber_def debug_log_def
          console_log_def push_def Let_def)
  have refill: "\<exists>s' S'. publish (MachineRefillEvent r M) s = Inr s'
           \<and> getMachineById (machines s') M = Some (mach\<lparr>stockLevel := S'\<rparr>)
           \<and> S' = js_add S r
           \<and> (S < T \<and> S' \<ge> T \<longrightarrow>
                events s' = events s @ [StockLevelOkEvent S' M])
           \<and> ((S < T \<and> S' < T) \<or> (S \<ge> T \<and> S' \<ge> T) \<longrightarrow> events s' = events s)"
    using assms idm upd
    by (auto simp: publish_def handle_MachineRefillSubscriber_def debug_log_def
          console_log_def push_def Let_def)
  from sale refill show ?thesis by blast
qed

theorem threshold_edge_triggered_witness:
  "eventSubscribe (main_state [\<lparr>stockLevel = 3, id_machine = ''001''\<rparr>] []) SALE
     = Some [MachineSaleSubscriber 0]
   \<and> eventSubscribe (main_state [\<lparr>stockLevel = 3, id_machine = ''001''\<rparr>] []) REFIL
     = Some [MachineRefillSubscriber 1]
   \<and> getMachineById (machines (main_state [\<lparr>stockLevel = 3, id_machine = ''001''\<rparr>] [])) ''001''
     = Some \<lparr>stockLevel = 3, id_machine = ''001''\<rparr>
   \<and> (3::int) = LOW_STOCK_WARNING_THRESHOLD
   \<and> (\<exists>s'. publish (MachineSaleEvent 1 ''001'')
              (main_state [\<lparr>stockLevel = 3, id_machine = ''001''\<rparr>] []) = Inr s'
          \<and> getMachineById (machines s') ''001'' = Some \<lparr>stockLevel = 2, id_machine = ''001''\<rparr>
          \<and> events s' = [LowStockWarningEvent 2 ''001''])
   \<and> (\<exists>s'. publish (MachineRefillEvent 5 ''001'')
              (main_state [\<lparr>stockLevel = 3, id_machine = ''001''\<rparr>] []) = Inr s'
          \<and> getMachineById (machines s') ''001'' = Some \<lparr>stockLevel = 8, id_machine = ''001''\<rparr>
          \<and> events s' = [])
   \<and> eventSubscribe (main_state [\<lparr>stockLevel = 2, id_machine = ''001''\<rparr>] []) SALE
     = Some [MachineSaleSubscriber 0]
   \<and> eventSubscribe (main_state [\<lparr>stockLevel = 2, id_machine = ''001''\<rparr>] []) REFIL
     = Some [MachineRefillSubscriber 1]
   \<and> getMachineById (machines (main_state [\<lparr>stockLevel = 2, id_machine = ''001''\<rparr>] [])) ''001''
     = Some \<lparr>stockLevel = 2, id_machine = ''001''\<rparr>
   \<and> (\<exists>s'. publish (MachineSaleEvent 1 ''001'')
              (main_state [\<lparr>stockLevel = 2, id_machine = ''001''\<rparr>] []) = Inr s'
          \<and> getMachineById (machines s') ''001'' = Some \<lparr>stockLevel = 1, id_machine = ''001''\<rparr>
          \<and> events s' = [])
   \<and> (\<exists>s'. publish (MachineRefillEvent 1 ''001'')
              (main_state [\<lparr>stockLevel = 2, id_machine = ''001''\<rparr>] []) = Inr s'
          \<and> getMachineById (machines s') ''001'' = Some \<lparr>stockLevel = 3, id_machine = ''001''\<rparr>
          \<and> events s' = [StockLevelOkEvent 3 ''001''])"
proof -
  let ?m3 = "\<lparr>stockLevel = 3, id_machine = ''001''\<rparr>"
  let ?m2 = "\<lparr>stockLevel = 2, id_machine = ''001''\<rparr>"
  have reg: "\<And>ms. eventSubscribe (main_state ms []) SALE = Some [MachineSaleSubscriber 0]
      \<and> eventSubscribe (main_state ms []) REFIL = Some [MachineRefillSubscriber 1]
      \<and> machines (main_state ms []) = ms \<and> events (main_state ms []) = []"
    by (simp add: main_state_simps main_registry_simps)
  have g3: "getMachineById (machines (main_state [?m3] [])) ''001'' = Some ?m3"
    by (simp add: reg getMachineById_def)
  have g2: "getMachineById (machines (main_state [?m2] [])) ''001'' = Some ?m2"
    by (simp add: reg getMachineById_def)
  have T: "(3::int) = LOW_STOCK_WARNING_THRESHOLD"
    by (simp add: LOW_STOCK_WARNING_THRESHOLD_def)
  have s3: "stockLevel ?m3 = 3" and s2: "stockLevel ?m2 = 2"
    by simp_all
  have ar: "js_sub 3 1 = 2" "js_add 3 5 = 8" "js_sub 2 1 = 1" "js_add 2 1 = 3"
    by (simp_all add: js_sub_safe js_add_safe)
  note a = threshold_edge_triggered [OF conjunct1 [OF reg] conjunct1 [OF conjunct2 [OF reg]]
      g3 s3 [symmetric] T, of 1 5]
  note b = threshold_edge_triggered [OF conjunct1 [OF reg] conjunct1 [OF conjunct2 [OF reg]]
      g2 s2 [symmetric] T, of 1 1]
  from a b reg g3 g2 show ?thesis
    by (simp add: LOW_STOCK_WARNING_THRESHOLD_def ar)
qed

section \<open>Exceptions in a subscriber\<close>

lemma delivered_append: "delivered (xs @ ys) = delivered xs @ delivered ys"
  by (induction xs rule: delivered.induct) simp_all

lemma forEach_handle_append:
  "forEach_handle (xs @ ys) e s =
     (case forEach_handle xs e s of
        Inl thrown \<Rightarrow> Inl thrown
      | Inr s1 \<Rightarrow> forEach_handle ys e s1)"
  by (induction xs arbitrary: s) (simp_all split: sum.splits)

lemma handle_thrown:
  assumes "handle sub e s = Inl (err, sf)"
  shows "eventSubscribe sf = eventSubscribe s \<and> machines sf = machines s
       \<and> events sf = events s \<and> delivered (console sf) = delivered (console s) @ [e]"
  using assms
  by (cases sub)
     (auto simp: handle_MachineSaleSubscriber_def handle_MachineRefillSubscriber_def
        handle_StockWarningSubscriber_def handle_StockLevelOkSubscriber_def
        debug_log_def console_log_def IS_DEBUG_LOG_def Let_def delivered_append
        split: option.splits if_splits)

text \<open>
  C6. \<open>publish\<close> calls the subscribers of the tag in the order of their registration,
  each on the state that the one before left. When the subscribers in front of the
  \<open>i\<close>-th return normally and the \<open>i\<close>-th throws, \<open>publish\<close> throws that error, in the
  state of the throw: the last delivery written to the console is the one to the
  \<open>i\<close>-th subscriber, so none of those registered after it was called. The main loop
  ends with the same error in the same state, the rest of the queue not delivered.
\<close>

theorem handler_fault_propagates:
  assumes "eventSubscribe s (event_type e) = Some (before @ sub # after)"
    and "forEach_handle before e s = Inr s1"
    and "handle sub e s1 = Inl (err, sf)"
  shows "publish e s = Inl (err, sf)
       \<and> delivered (console sf) = delivered (console s1) @ [e]
       \<and> machines sf = machines s1 \<and> events sf = events s1
       \<and> drain (s\<lparr>events := e # events s\<rparr>) = Inl (err, sf)"
proof -
  have p: "publish e s = Inl (err, sf)"
    using assms by (simp add: publish_def forEach_handle_append)
  have "publish e (s\<lparr>events := e # events s, events := events s\<rparr>) = Inl (err, sf)"
    using p by simp
  then have d: "drain (s\<lparr>events := e # events s\<rparr>) = Inl (err, sf)"
    by (intro drain_thrown [where e = e and rest = "events s"]) simp_all
  from p d handle_thrown [OF assms(3)] show ?thesis by simp
qed

theorem handler_fault_propagates_witness:
  "eventSubscribe
     (state_of (subscribe SALE (StockWarningSubscriber 2)
        (state_of (subscribe SALE (MachineRefillSubscriber 1)
           (main_state main_machines [MachineRefillEvent 3 ''002''])))))
     (event_type (MachineSaleEvent 1 ''001''))
     = Some ([MachineSaleSubscriber 0] @ MachineRefillSubscriber 1 # [StockWarningSubscriber 2])
   \<and> publish (MachineSaleEvent 1 ''001'')
       (state_of (subscribe SALE (StockWarningSubscriber 2)
          (state_of (subscribe SALE (MachineRefillSubscriber 1)
             (main_state main_machines [MachineRefillEvent 3 ''002''])))))
     = Inl (TypeError,
         (state_of (subscribe SALE (StockWarningSubscriber 2)
            (state_of (subscribe SALE (MachineRefillSubscriber 1)
               (main_state main_machines [MachineRefillEvent 3 ''002''])))))
         \<lparr>machines := [\<lparr>stockLevel = 9, id_machine = ''001''\<rparr>,
                       new_Machine ''002'', new_Machine ''003''],
          console := [ConsoleLog ''[Main] Test Begin'' None,
            ConsoleLog ''[MachineSaleSubscriber] Event receive''
              (Some (MachineSaleEvent 1 ''001'')),
            ConsoleLog ''[MachineRefillSubscriber] Event receive''
              (Some (MachineSaleEvent 1 ''001''))]\<rparr>)
   \<and> drain
       (state_of (subscribe SALE (StockWarningSubscriber 2)
          (state_of (subscribe SALE (MachineRefillSubscriber 1)
             (main_state main_machines
                [MachineSaleEvent 1 ''001'', MachineRefillEvent 3 ''002''])))))
     = Inl (TypeError,
         (state_of (subscribe SALE (StockWarningSubscriber 2)
            (state_of (subscribe SALE (MachineRefillSubscriber 1)
               (main_state main_machines [MachineRefillEvent 3 ''002''])))))
         \<lparr>machines := [\<lparr>stockLevel = 9, id_machine = ''001''\<rparr>,
                       new_Machine ''002'', new_Machine ''003''],
          console := [ConsoleLog ''[Main] Test Begin'' None,
            ConsoleLog ''[MachineSaleSubscriber] Event receive''
              (Some (MachineSaleEvent 1 ''001'')),
            ConsoleLog ''[MachineRefillSubscriber] Event receive''
              (Some (MachineSaleEvent 1 ''001''))]\<rparr>)"
proof -
  let ?e = "MachineSaleEvent 1 ''001''"
  let ?s = "state_of (subscribe SALE (StockWarningSubscriber 2)
        (state_of (subscribe SALE (MachineRefillSubscriber 1)
           (main_state main_machines [MachineRefillEvent 3 ''002'']))))"
  let ?s1 = "?s\<lparr>machines := [\<lparr>stockLevel = 9, id_machine = ''001''\<rparr>,
                       new_Machine ''002'', new_Machine ''003''],
          console := [ConsoleLog ''[Main] Test Begin'' None,
            ConsoleLog ''[MachineSaleSubscriber] Event receive'' (Some ?e)]\<rparr>"
  let ?sf = "?s\<lparr>machines := [\<lparr>stockLevel = 9, id_machine = ''001''\<rparr>,
                       new_Machine ''002'', new_Machine ''003''],
          console := [ConsoleLog ''[Main] Test Begin'' None,
            ConsoleLog ''[MachineSaleSubscriber] Event receive'' (Some ?e),
            ConsoleLog ''[MachineRefillSubscriber] Event receive'' (Some ?e)]\<rparr>"
  have reg: "eventSubscribe ?s (event_type ?e)
     = Some ([MachineSaleSubscriber 0] @ MachineRefillSubscriber 1 # [StockWarningSubscriber 2])"
    by (simp add: main_state_def main_subscribe_def subscribe_def and_then_def
          Object_prototype_def)
  have before: "forEach_handle [MachineSaleSubscriber 0] ?e ?s = Inr ?s1"
    by (simp add: main_state_def main_subscribe_def subscribe_def and_then_def
          Object_prototype_def main_machines_def
          new_Machine_def handle_MachineSaleSubscriber_def getMachineById_def debug_log_def
          console_log_def IS_DEBUG_LOG_def LOW_STOCK_WARNING_THRESHOLD_def Let_def
          js_sub_safe)
  have thrown: "handle (MachineRefillSubscriber 1) ?e ?s1 = Inl (TypeError, ?sf)"
    by (simp add: main_state_def main_subscribe_def subscribe_def and_then_def
          Object_prototype_def main_machines_def
          new_Machine_def handle_MachineRefillSubscriber_def getMachineById_def debug_log_def
          console_log_def IS_DEBUG_LOG_def Let_def)
  have q: "?s\<lparr>events := ?e # events ?s\<rparr>
      = state_of (subscribe SALE (StockWarningSubscriber 2)
          (state_of (subscribe SALE (MachineRefillSubscriber 1)
             (main_state main_machines [?e, MachineRefillEvent 3 ''002'']))))"
    by (simp add: main_state_def main_subscribe_def subscribe_def and_then_def
          Object_prototype_def)
  from handler_fault_propagates [OF reg before thrown] reg q
  show ?thesis by simp
qed

section \<open>The loop of the main program\<close>

lemma publish_main:
  assumes "eventSubscribe s = main_registry"
  shows "\<exists>s' d. publish e s = Inr s' \<and> eventSubscribe s' = main_registry
           \<and> events s' = events s @ d \<and> list_all derived d \<and> length d \<le> 1
           \<and> (derived e \<longrightarrow> d = [])
           \<and> delivered (console s') = delivered (console s) @ [e]"
proof (cases e)
  case (MachineSaleEvent q M)
  then show ?thesis
    using assms
    by (cases "getMachineById (machines s) M")
       (auto simp: publish_def main_registry_simps handle_MachineSaleSubscriber_def
          debug_log_def console_log_def console_error_def push_def IS_DEBUG_LOG_def Let_def
          delivered_append)
next
  case (MachineRefillEvent r M)
  then show ?thesis
    using assms
    by (cases "getMachineById (machines s) M")
       (auto simp: publish_def main_registry_simps handle_MachineRefillSubscriber_def
          debug_log_def console_log_def console_error_def push_def IS_DEBUG_LOG_def Let_def
          delivered_append)
next
  case (LowStockWarningEvent n M)
  then show ?thesis
    using assms
    by (simp add: publish_def main_registry_simps handle_StockWarningSubscriber_def
          debug_log_def console_log_def IS_DEBUG_LOG_def delivered_append)
next
  case (StockLevelOkEvent n M)
  then show ?thesis
    using assms
    by (simp add: publish_def main_registry_simps handle_StockLevelOkSubscriber_def
          debug_log_def console_log_def IS_DEBUG_LOG_def delivered_append)
qed

lemma filter_not_derived: "list_all derived d \<Longrightarrow> filter (\<lambda>e. \<not> derived e) d = []"
  by (induction d) auto

lemma drain_main:
  "eventSubscribe s = main_registry \<Longrightarrow>
     \<exists>s' d. drain s = Inr s' \<and> events s' = []
       \<and> delivered (console s') = delivered (console s) @ events s @ d
       \<and> list_all derived d
       \<and> length d \<le> length (filter (\<lambda>e. \<not> derived e) (events s))"
proof (induction s rule: drain.induct)
  case (1 s)
  show ?case
  proof (cases "events s")
    case Nil
    then show ?thesis by (simp add: drain_empty)
  next
    case (Cons e rest)
    have reg: "eventSubscribe (s\<lparr>events := rest\<rparr>) = main_registry"
      using "1.prems" by simp
    from publish_main [OF reg, of e] obtain s1 d1 where
      p: "publish e (s\<lparr>events := rest\<rparr>) = Inr s1"
      and r1: "eventSubscribe s1 = main_registry"
      and e1: "events s1 = rest @ d1"
      and a1: "list_all derived d1"
      and l1: "length d1 \<le> 1"
      and n1: "derived e \<longrightarrow> d1 = []"
      and c1: "delivered (console s1) = delivered (console s) @ [e]"
      by auto
    have step: "drain s = drain s1"
      using Cons p by (rule drain_step)
    have "\<exists>s' d. drain s1 = Inr s' \<and> events s' = []
       \<and> delivered (console s') = delivered (console s1) @ events s1 @ d
       \<and> list_all derived d
       \<and> length d \<le> length (filter (\<lambda>e. \<not> derived e) (events s1))"
    proof (cases "events s1")
      case Nil
      then show ?thesis by (simp add: drain_empty)
    next
      case (Cons x xs)
      then have "0 < length (events s1)" by simp
      from "1.IH" [OF \<open>events s = e # rest\<close> p this r1] show ?thesis .
    qed
    then obtain s' d2 where
      d: "drain s1 = Inr s'" "events s' = []"
        "delivered (console s') = delivered (console s1) @ events s1 @ d2"
        "list_all derived d2"
        "length d2 \<le> length (filter (\<lambda>e. \<not> derived e) (events s1))"
      by blast
    have f1: "filter (\<lambda>e. \<not> derived e) d1 = []"
      using a1 by (rule filter_not_derived)
    have len: "length (d1 @ d2) \<le> length (filter (\<lambda>e. \<not> derived e) (events s))"
      using d(5) e1 f1 l1 n1 Cons by (cases "derived e") auto
    have "drain s = Inr s' \<and> events s' = []
       \<and> delivered (console s') = delivered (console s) @ events s @ (d1 @ d2)
       \<and> list_all derived (d1 @ d2)
       \<and> length (d1 @ d2) \<le> length (filter (\<lambda>e. \<not> derived e) (events s))"
      using step d e1 c1 a1 len Cons by simp
    then show ?thesis by blast
  qed
qed

text \<open>
  C3. The main program with its three machines at stock 10, the threshold 3 and its
  four subscribers, on the events \<open>Sale(8, 001)\<close>, \<open>Sale(1, 001)\<close>, \<open>Sale(8, 002)\<close>,
  \<open>Refill(5, 002)\<close>, \<open>Refill(2, 002)\<close>: the loop ends normally with an empty queue and
  the stocks 1, 9 and 10; the deliveries are the five events and then a warning with 2
  for 001, a warning with 2 for 002 and a stock-ok with 7 for 002, and nothing else: two
  warnings and one stock-ok were created.
\<close>

theorem reference_scenario:
  "\<exists>s'. drain (main_state main_machines
            [MachineSaleEvent 8 ''001'', MachineSaleEvent 1 ''001'',
             MachineSaleEvent 8 ''002'', MachineRefillEvent 5 ''002'',
             MachineRefillEvent 2 ''002'']) = Inr s'
     \<and> events s' = []
     \<and> machines s' = [\<lparr>stockLevel = 1, id_machine = ''001''\<rparr>,
                       \<lparr>stockLevel = 9, id_machine = ''002''\<rparr>,
                       \<lparr>stockLevel = 10, id_machine = ''003''\<rparr>]
     \<and> delivered (console s') =
         [MachineSaleEvent 8 ''001'', MachineSaleEvent 1 ''001'',
          MachineSaleEvent 8 ''002'', MachineRefillEvent 5 ''002'',
          MachineRefillEvent 2 ''002'',
          LowStockWarningEvent 2 ''001'', LowStockWarningEvent 2 ''002'',
          StockLevelOkEvent 7 ''002'']
     \<and> console s' =
         [ConsoleLog ''[Main] Test Begin'' None,
          ConsoleLog ''[MachineSaleSubscriber] Event receive'' (Some (MachineSaleEvent 8 ''001'')),
          ConsoleLog ''[MachineSaleSubscriber] Event receive'' (Some (MachineSaleEvent 1 ''001'')),
          ConsoleLog ''[MachineSaleSubscriber] Event receive'' (Some (MachineSaleEvent 8 ''002'')),
          ConsoleLog ''[MachineRefillSubscriber] Event receive'' (Some (MachineRefillEvent 5 ''002'')),
          ConsoleLog ''[MachineRefillSubscriber] Event receive'' (Some (MachineRefillEvent 2 ''002'')),
          ConsoleLog ''[StockWarningSubscriber] Event receive'' (Some (LowStockWarningEvent 2 ''001'')),
          ConsoleLog ''[StockWarningSubscriber] Event receive'' (Some (LowStockWarningEvent 2 ''002'')),
          ConsoleLog ''[StockLevelOkSubscriber] Event receive'' (Some (StockLevelOkEvent 7 ''002''))]"
  by (simp add: drain.simps publish_def main_state_def main_subscribe_def subscribe_def
        and_then_def Object_prototype_def
        main_machines_def new_Machine_def handle_MachineSaleSubscriber_def
        handle_MachineRefillSubscriber_def handle_StockWarningSubscriber_def
        handle_StockLevelOkSubscriber_def getMachineById_def debug_log_def console_log_def
        push_def IS_DEBUG_LOG_def LOW_STOCK_WARNING_THRESHOLD_def Let_def
        js_sub_safe js_add_safe)

text \<open>
  C2. With the subscribers of the main program, from any state whose queue is \<open>e\<close>
  followed by \<open>rest\<close>: publishing \<open>e\<close> returns normally and leaves the queue \<open>rest\<close>
  followed by the events \<open>d1\<close> that handling \<open>e\<close> created; the loop ends normally; and
  the deliveries of the loop are \<open>e\<close>, then \<open>rest\<close> in its order, then \<open>d1\<close>, then the
  events created later. So an event created while handling \<open>e\<close> is delivered after
  every event that was in the queue at that moment: for the queue \<open>[E1, E2]\<close> where
  handling \<open>E1\<close> creates \<open>E3\<close>, the order is \<open>E1, E2, E3\<close>. Every state that the loop
  reaches has the same registry, so this holds at each of its steps.
\<close>

theorem drain_fifo_order:
  assumes "eventSubscribe s = main_registry"
    and "events s = e # rest"
  shows "\<exists>s1 d1 s' d2. publish e (s\<lparr>events := rest\<rparr>) = Inr s1
           \<and> eventSubscribe s1 = main_registry
           \<and> events s1 = rest @ d1
           \<and> drain s = Inr s'
           \<and> delivered (console s') = delivered (console s) @ e # rest @ d1 @ d2"
proof -
  have reg: "eventSubscribe (s\<lparr>events := rest\<rparr>) = main_registry"
    using assms(1) by simp
  from publish_main [OF reg, of e] obtain s1 d1 where
    p: "publish e (s\<lparr>events := rest\<rparr>) = Inr s1"
    and r1: "eventSubscribe s1 = main_registry"
    and e1: "events s1 = rest @ d1"
    and c1: "delivered (console s1) = delivered (console s) @ [e]"
    by auto
  from drain_main [OF r1] obtain s' d2 where
    d: "drain s1 = Inr s'"
      "delivered (console s') = delivered (console s1) @ events s1 @ d2"
    by blast
  have "drain s = drain s1"
    using assms(2) p by (rule drain_step)
  with p r1 e1 c1 d have "publish e (s\<lparr>events := rest\<rparr>) = Inr s1
           \<and> eventSubscribe s1 = main_registry
           \<and> events s1 = rest @ d1
           \<and> drain s = Inr s'
           \<and> delivered (console s') = delivered (console s) @ e # rest @ d1 @ d2"
    by simp
  then show ?thesis by blast
qed

theorem drain_fifo_order_witness:
  "eventSubscribe (main_state main_machines
       [MachineSaleEvent 8 ''001'', MachineRefillEvent 2 ''002'']) = main_registry
   \<and> events (main_state main_machines
       [MachineSaleEvent 8 ''001'', MachineRefillEvent 2 ''002''])
     = MachineSaleEvent 8 ''001'' # [MachineRefillEvent 2 ''002'']
   \<and> (\<exists>s1 d1 s' d2.
        publish (MachineSaleEvent 8 ''001'')
          (main_state main_machines [MachineRefillEvent 2 ''002'']) = Inr s1
        \<and> events s1 = [MachineRefillEvent 2 ''002''] @ d1
        \<and> drain (main_state main_machines
             [MachineSaleEvent 8 ''001'', MachineRefillEvent 2 ''002'']) = Inr s'
        \<and> delivered (console s')
            = MachineSaleEvent 8 ''001'' # [MachineRefillEvent 2 ''002''] @ d1 @ d2)
   \<and> (\<exists>s1. publish (MachineSaleEvent 8 ''001'')
          (main_state main_machines [MachineRefillEvent 2 ''002'']) = Inr s1
        \<and> events s1 = [MachineRefillEvent 2 ''002'', LowStockWarningEvent 2 ''001''])
   \<and> (\<exists>s'. drain (main_state main_machines
             [MachineSaleEvent 8 ''001'', MachineRefillEvent 2 ''002'']) = Inr s'
        \<and> delivered (console s')
            = [MachineSaleEvent 8 ''001'', MachineRefillEvent 2 ''002'',
               LowStockWarningEvent 2 ''001''])"
proof -
  let ?s = "main_state main_machines
       [MachineSaleEvent 8 ''001'', MachineRefillEvent 2 ''002'']"
  have h1: "eventSubscribe ?s = main_registry"
    by (rule main_state_simps)
  have h2: "events ?s = MachineSaleEvent 8 ''001'' # [MachineRefillEvent 2 ''002'']"
    by (simp add: main_state_simps)
  have q: "?s\<lparr>events := [MachineRefillEvent 2 ''002'']\<rparr>
      = main_state main_machines [MachineRefillEvent 2 ''002'']"
    by (simp add: main_state_def)
  have general: "\<exists>s1 d1 s' d2.
        publish (MachineSaleEvent 8 ''001'')
          (main_state main_machines [MachineRefillEvent 2 ''002'']) = Inr s1
        \<and> events s1 = [MachineRefillEvent 2 ''002''] @ d1
        \<and> drain ?s = Inr s'
        \<and> delivered (console s')
            = MachineSaleEvent 8 ''001'' # [MachineRefillEvent 2 ''002''] @ d1 @ d2"
    using drain_fifo_order [OF h1 h2] unfolding q main_state_simps by auto
  have first: "\<exists>s1. publish (MachineSaleEvent 8 ''001'')
          (main_state main_machines [MachineRefillEvent 2 ''002'']) = Inr s1
        \<and> events s1 = [MachineRefillEvent 2 ''002'', LowStockWarningEvent 2 ''001'']"
    by (simp add: publish_def main_state_def main_subscribe_def subscribe_def
          and_then_def Object_prototype_def
          main_machines_def new_Machine_def handle_MachineSaleSubscriber_def
          getMachineById_def debug_log_def console_log_def
          push_def IS_DEBUG_LOG_def LOW_STOCK_WARNING_THRESHOLD_def Let_def js_sub_safe)
  have whole: "\<exists>s'. drain ?s = Inr s'
        \<and> delivered (console s')
            = [MachineSaleEvent 8 ''001'', MachineRefillEvent 2 ''002'',
               LowStockWarningEvent 2 ''001'']"
    by (simp add: drain.simps publish_def main_state_def main_subscribe_def subscribe_def
        and_then_def Object_prototype_def
        main_machines_def new_Machine_def handle_MachineSaleSubscriber_def
        handle_MachineRefillSubscriber_def handle_StockWarningSubscriber_def
        handle_StockLevelOkSubscriber_def getMachineById_def debug_log_def console_log_def
        push_def IS_DEBUG_LOG_def LOW_STOCK_WARNING_THRESHOLD_def Let_def
        js_sub_safe js_add_safe)
  from h1 h2 general first whole show ?thesis by blast
qed

text \<open>
  C9. With the subscribers of the main program, for all machines and every list of
  events: publishing an event returns normally and appends at most one event to the
  queue, and none when the event is a warning or a stock-ok; the loop ends normally
  with an empty queue, and the number of deliveries is at most twice the number of
  events it started with. (The loop itself is a total function: its definition was
  accepted with a proof that it ends for every registry of these four classes.)
\<close>

theorem drain_terminates_main:
  "(\<exists>s1 d. publish e (main_state ms queue) = Inr s1 \<and> events s1 = queue @ d
       \<and> length d \<le> 1 \<and> (derived e \<longrightarrow> d = []))
   \<and> (\<exists>s'. drain (main_state ms batch) = Inr s' \<and> events s' = []
       \<and> length (delivered (console s')) \<le> 2 * length batch)"
proof -
  have reg: "\<And>evs. eventSubscribe (main_state ms evs) = main_registry"
    by (rule main_state_simps)
  have a: "\<exists>s1 d. publish e (main_state ms queue) = Inr s1 \<and> events s1 = queue @ d
       \<and> length d \<le> 1 \<and> (derived e \<longrightarrow> d = [])"
    using publish_main [where s = "main_state ms queue" and e = e, OF reg]
    by (auto simp: main_state_simps)
  from drain_main [where s = "main_state ms batch", OF reg] obtain s' d where
    d: "drain (main_state ms batch) = Inr s'" "events s' = []"
      "delivered (console s') = batch @ d"
      "length d \<le> length (filter (\<lambda>e. \<not> derived e) batch)"
    by (auto simp: main_state_simps)
  have "length (filter (\<lambda>e. \<not> derived e) batch) \<le> length batch"
    by (rule length_filter_le)
  with d(4) have "length d \<le> length batch"
    by (rule order_trans)
  with d have b: "\<exists>s'. drain (main_state ms batch) = Inr s' \<and> events s' = []
       \<and> length (delivered (console s')) \<le> 2 * length batch"
    by simp
  from a b show ?thesis by blast
qed

theorem drain_terminates_main_witness:
  "(\<exists>s1 d. publish (LowStockWarningEvent 2 ''001'')
              (main_state main_machines [MachineSaleEvent 1 ''001'']) = Inr s1
        \<and> events s1 = [MachineSaleEvent 1 ''001''] @ d
        \<and> derived (LowStockWarningEvent 2 ''001'') \<and> d = [])
   \<and> (\<exists>s'. drain (main_state main_machines [MachineSaleEvent 8 ''001'']) = Inr s'
        \<and> events s' = []
        \<and> length (delivered (console s')) \<le> 2 * length [MachineSaleEvent 8 ''001''])"
  using drain_terminates_main [of "LowStockWarningEvent 2 ''001''" main_machines
      "[MachineSaleEvent 1 ''001'']" "[MachineSaleEvent 8 ''001'']"]
  by simp

end
